theory Spec2Isabelle
  imports Main
begin

section \<open>Python values, exceptions and the operations the driver uses\<close>

text \<open>
  The driver \<^verbatim>\<open>osprofiler/drivers/jaeger.py\<close> receives a notification payload, a Python
  dictionary of JSON-like values. A value is \<^verbatim>\<open>None\<close>, a bool, an int, a str, a list or a
  dict with string keys. A dict is an association list read with \<open>map_of\<close>. Floats are
  left out: no operation of the driver looks inside a number.
\<close>

datatype pyval =
    PNone
  | PBool bool
  | PInt int
  | PStr string
  | PList "pyval list"
  | PDict "(string \<times> pyval) list"

text \<open>The exceptions the driver's own expressions can raise.\<close>

datatype py_error = KeyError | TypeError | ValueError | IndexError | AttributeError

text \<open>The span attributes built by \<^verbatim>\<open>create_span_tags\<close>: a dict from tag name to value.\<close>

type_synonym tags = "string \<rightharpoonup> pyval"

text \<open>Truth value of an object, as \<^verbatim>\<open>if x:\<close> tests it.\<close>

fun truthy :: "pyval \<Rightarrow> bool" where
  "truthy PNone = False"
| "truthy (PBool b) = b"
| "truthy (PInt i) = (i \<noteq> 0)"
| "truthy (PStr s) = (s \<noteq> [])"
| "truthy (PList xs) = (xs \<noteq> [])"
| "truthy (PDict kvs) = (kvs \<noteq> [])"

text \<open>
  \<^verbatim>\<open>obj[key]\<close> with a string key: a dict raises KeyError on a missing key; a str or a
  list wants integer indices and None, bools and ints are not subscriptable, all
  TypeError.
\<close>

fun getitem :: "pyval \<Rightarrow> string \<Rightarrow> py_error + pyval" where
  "getitem (PDict kvs) k = (case map_of kvs k of None \<Rightarrow> Inl KeyError | Some v \<Rightarrow> Inr v)"
| "getitem _ k = Inl TypeError"

text \<open>\<^verbatim>\<open>obj[k1][k2]\<close>.\<close>

definition getitem2 :: "pyval \<Rightarrow> string \<Rightarrow> string \<Rightarrow> py_error + pyval" where
  "getitem2 obj k1 k2 = (case getitem obj k1 of Inl e \<Rightarrow> Inl e | Inr v \<Rightarrow> getitem v k2)"

text \<open>
  \<^verbatim>\<open>obj.get(key)\<close>: on a dict the value, or None for a missing key; no other value has
  a \<^verbatim>\<open>get\<close> attribute.
\<close>

fun py_get :: "pyval \<Rightarrow> string \<Rightarrow> py_error + pyval" where
  "py_get (PDict kvs) k = Inr (case map_of kvs k of None \<Rightarrow> PNone | Some v \<Rightarrow> v)"
| "py_get _ k = Inl AttributeError"

text \<open>\<^verbatim>\<open>sub in s\<close> on two strings: \<open>sub\<close> occurs in \<open>s\<close> as a contiguous piece.\<close>

fun str_contains :: "string \<Rightarrow> string \<Rightarrow> bool" where
  "str_contains [] sub = (sub = [])"
| "str_contains (c # cs) sub = (take (length sub) (c # cs) = sub \<or> str_contains cs sub)"

text \<open>
  \<^verbatim>\<open>key in obj\<close> with a string key: key membership on a dict, element membership on a
  list, substring test on a str, TypeError on None, bools and ints.
\<close>

fun py_contains :: "pyval \<Rightarrow> string \<Rightarrow> py_error + bool" where
  "py_contains (PDict kvs) k = Inr (k \<in> fst ` set kvs)"
| "py_contains (PList xs) k = Inr (PStr k \<in> set xs)"
| "py_contains (PStr s) k = Inr (str_contains s k)"
| "py_contains _ k = Inl TypeError"

text \<open>\<^verbatim>\<open>s.endswith(suf)\<close>.\<close>

definition endswith :: "string \<Rightarrow> string \<Rightarrow> bool" where
  "endswith s suf = (length suf \<le> length s \<and> drop (length s - length suf) s = suf)"

text \<open>
  \<^verbatim>\<open>s.rstrip(chars)\<close>: removes from the right end every character that is a member of
  \<open>chars\<close>, until one is not.
\<close>

definition rstrip :: "string \<Rightarrow> string \<Rightarrow> string" where
  "rstrip s chars = rev (dropWhile (\<lambda>c. c \<in> set chars) (rev s))"

section \<open>The tag builder: \<^verbatim>\<open>Jaeger.create_span_tags\<close>\<close>

text \<open>
  The three branches of \<^verbatim>\<open>create_span_tags\<close>. Each subscript \<^verbatim>\<open>info["db"]["statement"]\<close>
  is evaluated as the source writes it, from \<open>info\<close>, in the source's order; the first one
  that raises ends the call. \<open>dmp\<close> is \<^verbatim>\<open>jsonutils.dumps\<close> of oslo.serialization, a
  parameter of the model.
\<close>

definition db_tags :: "(pyval \<Rightarrow> string) \<Rightarrow> pyval \<Rightarrow> py_error + tags" where
  "db_tags dmp info =
     (case getitem2 info ''db'' ''statement'' of Inl e \<Rightarrow> Inl e | Inr st \<Rightarrow>
      (case getitem2 info ''db'' ''params'' of Inl e \<Rightarrow> Inl e | Inr ps \<Rightarrow>
         Inr [''db.statement'' \<mapsto> st, ''db.params'' \<mapsto> PStr (dmp ps)]))"

definition request_tags :: "pyval \<Rightarrow> py_error + tags" where
  "request_tags info =
     (case getitem2 info ''request'' ''path'' of Inl e \<Rightarrow> Inl e | Inr p \<Rightarrow>
      (case getitem2 info ''request'' ''query'' of Inl e \<Rightarrow> Inl e | Inr q \<Rightarrow>
       (case getitem2 info ''request'' ''method'' of Inl e \<Rightarrow> Inl e | Inr m \<Rightarrow>
        (case getitem2 info ''request'' ''scheme'' of Inl e \<Rightarrow> Inl e | Inr sc \<Rightarrow>
           Inr [''http.path'' \<mapsto> p, ''http.query'' \<mapsto> q,
                ''http.method'' \<mapsto> m, ''http.scheme'' \<mapsto> sc]))))"

text \<open>
  \<^verbatim>\<open>if key in info["function"]: tags[key] = info["function"][key]\<close>, on the tags built so
  far.
\<close>

definition copy_if_present :: "pyval \<Rightarrow> string \<Rightarrow> tags \<Rightarrow> py_error + tags" where
  "copy_if_present info key t =
     (case getitem info ''function'' of Inl e \<Rightarrow> Inl e | Inr f \<Rightarrow>
      (case py_contains f key of Inl e \<Rightarrow> Inl e | Inr present \<Rightarrow>
         if present then
           (case getitem2 info ''function'' key of Inl e \<Rightarrow> Inl e | Inr v \<Rightarrow> Inr (t(key \<mapsto> v)))
         else Inr t))"

definition function_tags :: "pyval \<Rightarrow> py_error + tags" where
  "function_tags info =
     (case copy_if_present info ''args'' Map.empty of Inl e \<Rightarrow> Inl e | Inr t1 \<Rightarrow>
      (case copy_if_present info ''kwargs'' t1 of Inl e \<Rightarrow> Inl e | Inr t2 \<Rightarrow>
       (case getitem2 info ''function'' ''name'' of Inl e \<Rightarrow> Inl e | Inr n \<Rightarrow>
          Inr (t2(''name'' \<mapsto> n)))))"

definition create_span_tags :: "(pyval \<Rightarrow> string) \<Rightarrow> pyval \<Rightarrow> py_error + tags" where
  "create_span_tags dmp payload =
     (case getitem payload ''info'' of Inl e \<Rightarrow> Inl e | Inr info \<Rightarrow>
      (case py_get info ''db'' of Inl e \<Rightarrow> Inl e | Inr db \<Rightarrow>
         if truthy db then db_tags dmp info
         else
           (case py_get info ''request'' of Inl e \<Rightarrow> Inl e | Inr req \<Rightarrow>
              if truthy req then request_tags info
              else
                (case py_get info ''function'' of Inl e \<Rightarrow> Inl e | Inr fn \<Rightarrow>
                   if truthy fn then function_tags info
                   else Inr Map.empty))))"

section \<open>The span lifecycle: \<^verbatim>\<open>Jaeger.notify\<close>\<close>

text \<open>
  What the driver consumes from outside this repository is a parameter of the model:
  \<^item> \<open>strptime\<close>: whether \<^verbatim>\<open>datetime.datetime.strptime(s, "%Y-%m-%dT%H:%M:%S.%f")\<close>
    accepts the string \<open>s\<close> (it raises ValueError otherwise). The parsed instant is only
    used for \<^verbatim>\<open>start_time\<close>, which the driver never reads again.
  \<^item> \<open>dumps\<close>: \<^verbatim>\<open>jsonutils.dumps\<close>.
  \<^item> \<open>SpanContext\<close>: the OpenTelemetry call
    \<^verbatim>\<open>NonRecordingSpan(SpanContext(trace_id=, span_id=, is_remote=, trace_flags=))\<close>,
    with the flag argument given as "sampled or not"; the library may reject the
    identifiers it is handed with an exception.
  \<^item> \<open>start_span\<close>: the identifiers \<open>(trace_id, span_id)\<close> the tracer gives to the span it
    starts, from the number of spans it has started before, the name, the parent and
    the attributes.
\<close>

record 'c lib =
  strptime :: "string \<Rightarrow> bool"
  dumps :: "pyval \<Rightarrow> string"
  SpanContext :: "pyval \<Rightarrow> pyval \<Rightarrow> bool \<Rightarrow> bool \<Rightarrow> py_error + 'c"
  start_span :: "nat \<Rightarrow> string \<Rightarrow> 'c option \<Rightarrow> tags \<Rightarrow> pyval \<times> pyval"

text \<open>A span as the driver sees it: what it asked for and the identifiers it got.\<close>

record 'c span =
  span_name :: string
  span_parent :: "'c option"
  span_attributes :: tags
  span_trace_id :: pyval
  span_span_id :: pyval

text \<open>
  The state one driver instance works on. \<open>spans\<close> is \<^verbatim>\<open>self.spans\<close>, the deque of
  activations, the newest at the right end; an activation
  (\<^verbatim>\<open>trace.use_span(span, end_on_exit=True)\<close>, entered) is identified with the span it
  scopes. \<open>started\<close> lists the spans opened by \<^verbatim>\<open>tracer.start_span\<close> and \<open>ended\<close> the spans
  closed by \<^verbatim>\<open>activation.__exit__(None, None, None)\<close>, oldest first. The \<^verbatim>\<open>print\<close> calls
  are not modelled.
\<close>

record 'c driver =
  spans :: "'c span list"
  started :: "'c span list"
  ended :: "'c span list"

text \<open>\<^verbatim>\<open>__init__\<close>: \<^verbatim>\<open>self.spans = collections.deque()\<close>, no span opened or closed yet.\<close>

definition init_driver :: "'c driver" where
  "init_driver = \<lparr>spans = [], started = [], ended = []\<rparr>"

text \<open>
  \<^verbatim>\<open>datetime.datetime.strptime(payload["timestamp"], ...)\<close> on the value found: TypeError
  when it is no str, ValueError when the string does not match the format.
\<close>

definition parse_timestamp :: "'c lib \<Rightarrow> pyval \<Rightarrow> py_error + unit" where
  "parse_timestamp L ts =
     (case ts of
        PStr t \<Rightarrow> if strptime L t then Inr () else Inl ValueError
      | _ \<Rightarrow> Inl TypeError)"

text \<open>
  Lines 105 to 119: \<^verbatim>\<open>parent_span\<close> stays None when \<^verbatim>\<open>payload["parent_id"]\<close> is None;
  otherwise it is the remote, sampled context built from \<^verbatim>\<open>payload["base_id"]\<close> and
  \<^verbatim>\<open>payload["parent_id"]\<close>.
\<close>

definition resolve_parent :: "'c lib \<Rightarrow> pyval \<Rightarrow> py_error + 'c option" where
  "resolve_parent L payload =
     (case getitem payload ''parent_id'' of Inl e \<Rightarrow> Inl e | Inr pid \<Rightarrow>
        if pid \<noteq> PNone then
          (case getitem payload ''base_id'' of Inl e \<Rightarrow> Inl e | Inr trace_id \<Rightarrow>
           (case getitem payload ''parent_id'' of Inl e \<Rightarrow> Inl e | Inr span_id \<Rightarrow>
            (case SpanContext L trace_id span_id True True of
               Inl e \<Rightarrow> Inl e
             | Inr c \<Rightarrow> Inr (Some c))))
        else Inr None)"

text \<open>
  The start branch (lines 92 to 157), for a payload whose name is the string \<open>n\<close>. Every
  exception is raised before the tracer is called, so the state it is returned with is
  the state the call began in. On success the span is opened, its activation appended
  to the deque, and the identifiers returned.
\<close>

definition notify_start :: "'c lib \<Rightarrow> 'c driver \<Rightarrow> pyval \<Rightarrow> string \<Rightarrow> (py_error + pyval) \<times> 'c driver" where
  "notify_start L s payload n =
     (case getitem payload ''timestamp'' of Inl e \<Rightarrow> (Inl e, s) | Inr ts \<Rightarrow>
      (case parse_timestamp L ts of Inl e \<Rightarrow> (Inl e, s) | Inr _ \<Rightarrow>
       (case resolve_parent L payload of Inl e \<Rightarrow> (Inl e, s) | Inr parent_span \<Rightarrow>
        (case create_span_tags (dumps L) payload of Inl e \<Rightarrow> (Inl e, s) | Inr attrs \<Rightarrow>
           (let nm = rstrip n ''-start'';
                ids = start_span L (length (started s)) nm parent_span attrs;
                sp = \<lparr>span_name = nm, span_parent = parent_span, span_attributes = attrs,
                      span_trace_id = fst ids, span_span_id = snd ids\<rparr>;
                s' = s\<lparr>spans := spans s @ [sp], started := started s @ [sp]\<rparr>
            in (case parent_span of
                  None \<Rightarrow> (Inr (PList [span_trace_id sp, span_span_id sp]), s')
                | Some _ \<Rightarrow> (Inr (PList [span_span_id sp]), s')))))))"

text \<open>
  The stop branch (lines 159 to 173): \<^verbatim>\<open>self.spans.pop()\<close> raises IndexError on an empty
  deque; otherwise the rightmost activation is removed and exited, which ends its span.
  The method then returns None. The payload is not read.
\<close>

definition notify_stop :: "'c driver \<Rightarrow> (py_error + pyval) \<times> 'c driver" where
  "notify_stop s =
     (if spans s = [] then (Inl IndexError, s)
      else (Inr PNone, s\<lparr>spans := butlast (spans s), ended := ended s @ [last (spans s)]\<rparr>))"

text \<open>
  \<^verbatim>\<open>notify\<close>: \<^verbatim>\<open>payload["name"].endswith("start")\<close> picks the branch. A name that is no
  str has no \<^verbatim>\<open>endswith\<close> attribute. The result is the value returned or the exception
  raised, with the state the call leaves behind.
\<close>

definition notify :: "'c lib \<Rightarrow> 'c driver \<Rightarrow> pyval \<Rightarrow> (py_error + pyval) \<times> 'c driver" where
  "notify L s payload =
     (case getitem payload ''name'' of
        Inl e \<Rightarrow> (Inl e, s)
      | Inr (PStr n) \<Rightarrow> if endswith n ''start'' then notify_start L s payload n else notify_stop s
      | Inr _ \<Rightarrow> (Inl AttributeError, s))"

section \<open>Notions the properties are stated with\<close>

text \<open>
  How \<^verbatim>\<open>notify\<close> classifies a payload: a start when its name is a string ending in
  \<^verbatim>\<open>start\<close>, a stop when its name is any other string.
\<close>

definition is_start :: "pyval \<Rightarrow> bool" where
  "is_start payload =
     (case getitem payload ''name'' of Inr (PStr n) \<Rightarrow> endswith n ''start'' | _ \<Rightarrow> False)"

definition is_stop :: "pyval \<Rightarrow> bool" where
  "is_stop payload =
     (case getitem payload ''name'' of Inr (PStr n) \<Rightarrow> \<not> endswith n ''start'' | _ \<Rightarrow> False)"

text \<open>A call that returned a value rather than raising.\<close>

definition returned :: "(py_error + pyval) \<times> 'c driver \<Rightarrow> bool" where
  "returned res = (case fst res of Inr _ \<Rightarrow> True | Inl _ \<Rightarrow> False)"

text \<open>
  The caller delivers a sequence of notifications to one driver instance, one call of
  \<^verbatim>\<open>notify\<close> after the other; the first exception ends the delivery.
\<close>

fun notify_all :: "'c lib \<Rightarrow> 'c driver \<Rightarrow> pyval list \<Rightarrow> py_error + 'c driver" where
  "notify_all L s [] = Inr s"
| "notify_all L s (p # ps) =
     (case notify L s p of
        (Inl e, _) \<Rightarrow> Inl e
      | (Inr _, s') \<Rightarrow> notify_all L s' ps)"

text \<open>
  A sequence of starts and stops is well nested at depth \<open>d\<close> when no stop comes without
  an open start before it (\<open>d\<close> of them being open already) and every start is closed at
  the end.
\<close>

fun well_nested :: "nat \<Rightarrow> pyval list \<Rightarrow> bool" where
  "well_nested d [] = (d = 0)"
| "well_nested d (p # ps) =
     (if is_start p then well_nested (Suc d) ps
      else is_stop p \<and> 0 < d \<and> well_nested (d - 1) ps)"

text \<open>
  The branch \<^verbatim>\<open>create_span_tags\<close> takes on the dict \<open>i\<close> found under \<^verbatim>\<open>info\<close>: the value the
  branch reads from, with the sub-fields it subscripts unconditionally; None when no
  branch is taken.
\<close>

definition dict_get :: "(string \<times> pyval) list \<Rightarrow> string \<Rightarrow> pyval" where
  "dict_get i k = (case map_of i k of None \<Rightarrow> PNone | Some v \<Rightarrow> v)"

definition selected_branch :: "(string \<times> pyval) list \<Rightarrow> (pyval \<times> string list) option" where
  "selected_branch i =
     (if truthy (dict_get i ''db'') then Some (dict_get i ''db'', [''statement'', ''params''])
      else if truthy (dict_get i ''request'') then
        Some (dict_get i ''request'', [''path'', ''query'', ''method'', ''scheme''])
      else if truthy (dict_get i ''function'') then Some (dict_get i ''function'', [''name''])
      else None)"

text \<open>The value is a dict that has every one of the keys.\<close>

definition has_keys :: "pyval \<Rightarrow> string list \<Rightarrow> bool" where
  "has_keys v ks = (case v of PDict d \<Rightarrow> list_all (\<lambda>k. map_of d k \<noteq> None) ks | _ \<Rightarrow> False)"

section \<open>Sample collaborators and payloads\<close>

text \<open>
  One choice of the outside collaborators and a few payloads, on which the properties
  below are evaluated. The sample \<open>strptime\<close> accepts one timestamp of the right format,
  the sample tracer numbers its spans and gives a root span a trace identifier of its
  own and a child the trace identifier of its parent.
\<close>

definition sample_dumps :: "pyval \<Rightarrow> string" where
  "sample_dumps v = ''json''"

definition sample_lib :: "(pyval \<times> pyval) lib" where
  "sample_lib =
     \<lparr>strptime = (\<lambda>t. t = ''2020-01-02T03:04:05.000006''),
      dumps = sample_dumps,
      SpanContext = (\<lambda>trace_id span_id remote sampled. Inr (trace_id, span_id)),
      start_span = (\<lambda>k nm parent attrs.
         (case parent of None \<Rightarrow> PInt (100 + int k) | Some c \<Rightarrow> fst c, PInt (1 + int k)))\<rparr>"

definition payload_of :: "string \<Rightarrow> string \<Rightarrow> pyval \<Rightarrow> pyval \<Rightarrow> pyval" where
  "payload_of nm ts parent info =
     PDict [(''name'', PStr nm), (''timestamp'', PStr ts), (''base_id'', PInt 7),
            (''parent_id'', parent), (''info'', info)]"

definition good_ts :: string where
  "good_ts = ''2020-01-02T03:04:05.000006''"

definition db_info :: pyval where
  "db_info = PDict [(''db'', PDict [(''statement'', PStr ''SELECT 1''),
                                    (''params'', PDict [(''a'', PInt 1)])])]"

definition request_fields :: pyval where
  "request_fields = PDict [(''path'', PStr ''/x''), (''query'', PStr ''q=1''),
                           (''method'', PStr ''GET''), (''scheme'', PStr ''http'')]"

definition function_info :: pyval where
  "function_info = PDict [(''function'', PDict [(''name'', PStr ''foo''),
                                                (''args'', PList [PInt 1, PInt 2])])]"

definition sample_span :: "(pyval \<times> pyval) span" where
  "sample_span =
     \<lparr>span_name = ''wsgi'', span_parent = None, span_attributes = Map.empty,
      span_trace_id = PInt 100, span_span_id = PInt 1\<rparr>"

text \<open>A request that opens a root span and, inside it, a child span for a database call.\<close>

definition sample_trace :: "pyval list" where
  "sample_trace =
     [payload_of ''wsgi-start'' good_ts PNone (PDict [(''request'', request_fields)]),
      payload_of ''db-start'' good_ts (PInt 1) db_info,
      payload_of ''db-stop'' good_ts (PInt 1) db_info,
      payload_of ''wsgi-stop'' good_ts PNone (PDict [(''request'', request_fields)])]"

section \<open>Facts about the tag builder\<close>

lemma getitem_error: "getitem v k = Inl e \<Longrightarrow> e = KeyError \<or> e = TypeError"
  by (cases v) (auto split: option.splits)

lemma getitem_Inr_iff: "getitem v k = Inr x \<longleftrightarrow> (\<exists>d. v = PDict d \<and> map_of d k = Some x)"
  by (cases v) (auto split: option.splits)

lemma py_get_dict: "py_get (PDict i) k = Inr (dict_get i k)"
  by (simp add: dict_get_def)

lemma truthy_dict_get: "truthy (dict_get i k) \<Longrightarrow> map_of i k = Some (dict_get i k)"
  by (auto simp: dict_get_def split: option.splits)

lemma getitem2_selected:
  "truthy (dict_get i k) \<Longrightarrow> getitem2 (PDict i) k k' = getitem (dict_get i k) k'"
  by (simp add: getitem2_def truthy_dict_get)

lemma copy_if_present_dict:
  assumes "map_of i ''function'' = Some (PDict f)"
  shows "copy_if_present (PDict i) key t =
           Inr (case map_of f key of None \<Rightarrow> t | Some v \<Rightarrow> t(key \<mapsto> v))"
proof (cases "map_of f key")
  case None
  then have "key \<notin> fst ` set f" by (simp add: map_of_eq_None_iff)
  with assms None show ?thesis by (simp add: copy_if_present_def)
next
  case (Some v)
  then have "key \<in> fst ` set f" by (metis map_of_eq_None_iff option.distinct(1))
  with assms Some show ?thesis by (simp add: copy_if_present_def getitem2_def)
qed

lemma function_tags_dict:
  assumes "map_of i ''function'' = Some (PDict f)"
  shows "function_tags (PDict i) =
           (case map_of f ''name'' of
              None \<Rightarrow> Inl KeyError
            | Some n \<Rightarrow> Inr (map_of f |` {''args'', ''kwargs'', ''name''}))"
proof (cases "map_of f ''name''")
  case None
  with assms show ?thesis
    by (simp add: function_tags_def copy_if_present_dict getitem2_def)
next
  case (Some n)
  have "(case map_of f ''kwargs'' of None \<Rightarrow> (case map_of f ''args'' of None \<Rightarrow> Map.empty | Some v \<Rightarrow> [''args'' \<mapsto> v])
          | Some v \<Rightarrow> (case map_of f ''args'' of None \<Rightarrow> Map.empty | Some v \<Rightarrow> [''args'' \<mapsto> v])(''kwargs'' \<mapsto> v))(''name'' \<mapsto> n)
        = map_of f |` {''args'', ''kwargs'', ''name''}"
    using Some by (auto simp: restrict_map_def fun_eq_iff split: option.splits)
  with assms Some show ?thesis
    by (simp add: function_tags_def copy_if_present_dict getitem2_def)
qed

lemma getitem_has_key:
  "(\<exists>x. getitem v k = Inr x) \<longleftrightarrow> has_keys v [k]"
  by (cases v) (auto simp: has_keys_def split: option.splits)

lemma has_keys_Cons: "has_keys v (k # ks) \<longleftrightarrow> has_keys v [k] \<and> (ks = [] \<or> has_keys v ks)"
  by (cases v) (auto simp: has_keys_def)

lemma getitem_Inl_kind:
  "getitem v k = Inl e \<Longrightarrow> e = (case v of PDict d \<Rightarrow> KeyError | _ \<Rightarrow> TypeError)"
  by (cases v) (auto split: option.splits)

lemma db_tags_selected:
  assumes "truthy (dict_get i ''db'')"
  shows "db_tags dmp (PDict i) =
           (case getitem (dict_get i ''db'') ''statement'' of Inl e \<Rightarrow> Inl e | Inr st \<Rightarrow>
            (case getitem (dict_get i ''db'') ''params'' of Inl e \<Rightarrow> Inl e | Inr ps \<Rightarrow>
               Inr [''db.statement'' \<mapsto> st, ''db.params'' \<mapsto> PStr (dmp ps)]))"
proof -
  have g: "\<And>k'. getitem2 (PDict i) ''db'' k' = getitem (dict_get i ''db'') k'"
    using assms by (rule getitem2_selected)
  show ?thesis unfolding db_tags_def g by (rule refl)
qed

lemma request_tags_selected:
  assumes "truthy (dict_get i ''request'')"
  shows "request_tags (PDict i) =
     (case getitem (dict_get i ''request'') ''path'' of Inl e \<Rightarrow> Inl e | Inr p \<Rightarrow>
      (case getitem (dict_get i ''request'') ''query'' of Inl e \<Rightarrow> Inl e | Inr q \<Rightarrow>
       (case getitem (dict_get i ''request'') ''method'' of Inl e \<Rightarrow> Inl e | Inr m \<Rightarrow>
        (case getitem (dict_get i ''request'') ''scheme'' of Inl e \<Rightarrow> Inl e | Inr sc \<Rightarrow>
           Inr [''http.path'' \<mapsto> p, ''http.query'' \<mapsto> q,
                ''http.method'' \<mapsto> m, ''http.scheme'' \<mapsto> sc]))))"
proof -
  have g: "\<And>k'. getitem2 (PDict i) ''request'' k' = getitem (dict_get i ''request'') k'"
    using assms by (rule getitem2_selected)
  show ?thesis unfolding request_tags_def g by (rule refl)
qed

lemma function_tags_not_dict:
  assumes "truthy (dict_get i ''function'')" and "\<forall>f. dict_get i ''function'' \<noteq> PDict f"
  shows "function_tags (PDict i) = Inl TypeError"
proof -
  let ?v = "dict_get i ''function''"
  have m: "map_of i ''function'' = Some ?v" using assms(1) by (rule truthy_dict_get)
  have g: "\<And>k. getitem ?v k = Inl TypeError" using assms(2) by (cases ?v) auto
  have pc: "\<And>k e. py_contains ?v k = Inl e \<Longrightarrow> e = TypeError"
    by (cases ?v) auto
  have c: "\<And>k t. copy_if_present (PDict i) k t = Inl TypeError \<or> copy_if_present (PDict i) k t = Inr t"
    using m g by (auto simp: copy_if_present_def getitem2_def split: sum.splits dest: pc)
  show ?thesis
    using c [of "''args''" Map.empty] c [of "''kwargs''" Map.empty] m g
    by (auto simp: function_tags_def getitem2_def split: sum.splits)
qed

lemma create_span_tags_dict:
  assumes "getitem p ''info'' = Inr (PDict i)"
  shows "create_span_tags dmp p =
           (if truthy (dict_get i ''db'') then db_tags dmp (PDict i)
            else if truthy (dict_get i ''request'') then request_tags (PDict i)
            else if truthy (dict_get i ''function'') then function_tags (PDict i)
            else Inr Map.empty)"
  using assms by (simp add: create_span_tags_def py_get_dict del: py_get.simps)

lemma db_outcome:
  assumes "truthy (dict_get i ''db'')"
  shows "(\<exists>t. db_tags dmp (PDict i) = Inr t) \<longleftrightarrow> has_keys (dict_get i ''db'') [''statement'', ''params'']"
    and "db_tags dmp (PDict i) = Inl e \<Longrightarrow>
           e = (case dict_get i ''db'' of PDict d \<Rightarrow> KeyError | _ \<Rightarrow> TypeError)"
proof -
  show "(\<exists>t. db_tags dmp (PDict i) = Inr t) \<longleftrightarrow> has_keys (dict_get i ''db'') [''statement'', ''params'']"
    unfolding db_tags_selected [OF assms] has_keys_Cons [of _ "''statement''"]
      getitem_has_key [symmetric]
    by (auto split: sum.splits)
  show "db_tags dmp (PDict i) = Inl e \<Longrightarrow>
           e = (case dict_get i ''db'' of PDict d \<Rightarrow> KeyError | _ \<Rightarrow> TypeError)"
    unfolding db_tags_selected [OF assms]
    by (auto split: sum.splits dest: getitem_Inl_kind)
qed

lemma request_outcome:
  assumes "truthy (dict_get i ''request'')"
  shows "(\<exists>t. request_tags (PDict i) = Inr t) \<longleftrightarrow>
           has_keys (dict_get i ''request'') [''path'', ''query'', ''method'', ''scheme'']"
    and "request_tags (PDict i) = Inl e \<Longrightarrow>
           e = (case dict_get i ''request'' of PDict d \<Rightarrow> KeyError | _ \<Rightarrow> TypeError)"
proof -
  show "(\<exists>t. request_tags (PDict i) = Inr t) \<longleftrightarrow>
           has_keys (dict_get i ''request'') [''path'', ''query'', ''method'', ''scheme'']"
    unfolding request_tags_selected [OF assms] has_keys_Cons [of _ "''path''"]
      has_keys_Cons [of _ "''query''"] has_keys_Cons [of _ "''method''"]
      getitem_has_key [symmetric]
    by (auto split: sum.splits)
  show "request_tags (PDict i) = Inl e \<Longrightarrow>
           e = (case dict_get i ''request'' of PDict d \<Rightarrow> KeyError | _ \<Rightarrow> TypeError)"
    unfolding request_tags_selected [OF assms]
    by (auto split: sum.splits dest: getitem_Inl_kind)
qed

lemma function_outcome:
  assumes "truthy (dict_get i ''function'')"
  shows "(\<exists>t. function_tags (PDict i) = Inr t) \<longleftrightarrow> has_keys (dict_get i ''function'') [''name'']"
    and "function_tags (PDict i) = Inl e \<Longrightarrow>
           e = (case dict_get i ''function'' of PDict d \<Rightarrow> KeyError | _ \<Rightarrow> TypeError)"
proof -
  have m: "map_of i ''function'' = Some (dict_get i ''function'')"
    using assms by (rule truthy_dict_get)
  show "(\<exists>t. function_tags (PDict i) = Inr t) \<longleftrightarrow> has_keys (dict_get i ''function'') [''name'']"
  proof (cases "\<exists>f. dict_get i ''function'' = PDict f")
    case True
    then obtain f where f: "dict_get i ''function'' = PDict f" by blast
    with m have "map_of i ''function'' = Some (PDict f)" by simp
    then show ?thesis
      using f by (auto simp: function_tags_dict has_keys_def split: option.splits)
  next
    case False
    then have "function_tags (PDict i) = Inl TypeError"
      using assms function_tags_not_dict by blast
    moreover have "\<not> has_keys (dict_get i ''function'') [''name'']"
      using False by (cases "dict_get i ''function''") (auto simp: has_keys_def)
    ultimately show ?thesis by simp
  qed
  show "function_tags (PDict i) = Inl e \<Longrightarrow>
           e = (case dict_get i ''function'' of PDict d \<Rightarrow> KeyError | _ \<Rightarrow> TypeError)"
  proof (cases "\<exists>f. dict_get i ''function'' = PDict f")
    case True
    assume e: "function_tags (PDict i) = Inl e"
    from True obtain f where f: "dict_get i ''function'' = PDict f" by blast
    with m have "map_of i ''function'' = Some (PDict f)" by simp
    then show ?thesis
      using f e by (auto simp: function_tags_dict split: option.splits)
  next
    case False
    assume e: "function_tags (PDict i) = Inl e"
    from False have "function_tags (PDict i) = Inl TypeError"
      using assms function_tags_not_dict by blast
    with e False show ?thesis by (cases "dict_get i ''function''") auto
  qed
qed

section \<open>Properties of the tag builder\<close>

text \<open>
  Claim C8. For the payload whose \<^verbatim>\<open>info\<close> is
  \<^verbatim>\<open>{"db": {"statement": "SELECT 1", "params": {"a": 1}}}\<close>, the tag builder returns a
  mapping with exactly two keys: \<^verbatim>\<open>db.statement\<close> holds the raw statement text
  \<^verbatim>\<open>SELECT 1\<close> and \<^verbatim>\<open>db.params\<close> holds the serialised form of the parameter mapping,
  whatever the serialiser is. No \<^verbatim>\<open>http.*\<close> key and no function key is in it.
\<close>

theorem db_example_tags:
  assumes "getitem p ''info'' = Inr db_info"
  shows "\<exists>t. create_span_tags dmp p = Inr t
           \<and> t = [''db.statement'' \<mapsto> PStr ''SELECT 1'',
                  ''db.params'' \<mapsto> PStr (dmp (PDict [(''a'', PInt 1)]))]
           \<and> dom t = {''db.statement'', ''db.params''}"
  using assms by (auto simp: create_span_tags_def db_info_def db_tags_def getitem2_def)

theorem db_example_tags_witness:
  "getitem (payload_of ''db-start'' good_ts PNone db_info) ''info'' = Inr db_info
   \<and> (\<exists>t. create_span_tags sample_dumps (payload_of ''db-start'' good_ts PNone db_info) = Inr t
           \<and> t = [''db.statement'' \<mapsto> PStr ''SELECT 1'', ''db.params'' \<mapsto> PStr ''json'']
           \<and> dom t = {''db.statement'', ''db.params''})"
proof -
  have h: "getitem (payload_of ''db-start'' good_ts PNone db_info) ''info'' = Inr db_info"
    by (simp add: payload_of_def)
  show ?thesis
    using h db_example_tags [OF h, of sample_dumps] by (simp add: sample_dumps_def)
qed

text \<open>
  Claim C9. When the function branch is taken on a dict \<open>f\<close> that has a \<^verbatim>\<open>name\<close>, the
  tags are \<open>f\<close> restricted to the keys \<^verbatim>\<open>args\<close>, \<^verbatim>\<open>kwargs\<close> and \<^verbatim>\<open>name\<close>: \<^verbatim>\<open>args\<close> and
  \<^verbatim>\<open>kwargs\<close> are copied with their values exactly when \<open>f\<close> has them, and a key \<open>f\<close> lacks
  is absent from the tags, not bound to a placeholder. For
  \<^verbatim>\<open>{"function": {"name": "foo", "args": [1, 2]}}\<close> this gives
  \<^verbatim>\<open>{"name": "foo", "args": [1, 2]}\<close> with no \<^verbatim>\<open>kwargs\<close> key, the instance evaluated
  after the theorem.
\<close>

theorem function_tags_copy_present:
  assumes "getitem p ''info'' = Inr (PDict i)"
    and "\<not> truthy (dict_get i ''db'')" and "\<not> truthy (dict_get i ''request'')"
    and "dict_get i ''function'' = PDict f" and "f \<noteq> []" and "map_of f ''name'' = Some nm"
  shows "create_span_tags dmp p = Inr (map_of f |` {''args'', ''kwargs'', ''name''})"
proof -
  have t: "truthy (dict_get i ''function'')" using assms(4,5) by simp
  then have "map_of i ''function'' = Some (PDict f)"
    using assms(4) truthy_dict_get by fastforce
  then have "function_tags (PDict i) = Inr (map_of f |` {''args'', ''kwargs'', ''name''})"
    using assms(6) by (simp add: function_tags_dict)
  then show ?thesis
    using assms(1,2,3) t by (simp add: create_span_tags_def py_get_dict del: py_get.simps)
qed

theorem function_tags_copy_present_witness:
  "create_span_tags sample_dumps (payload_of ''rpc-start'' good_ts PNone function_info)
     = Inr [''name'' \<mapsto> PStr ''foo'', ''args'' \<mapsto> PList [PInt 1, PInt 2]]
   \<and> [''name'' \<mapsto> PStr ''foo'', ''args'' \<mapsto> PList [PInt 1, PInt 2]] ''kwargs'' = None"
proof -
  let ?f = "[(''name'', PStr ''foo''), (''args'', PList [PInt 1, PInt 2])]"
  let ?i = "[(''function'', PDict ?f)]"
  have "create_span_tags sample_dumps (payload_of ''rpc-start'' good_ts PNone function_info)
          = Inr (map_of ?f |` {''args'', ''kwargs'', ''name''})"
    by (rule function_tags_copy_present [where i = ?i and nm = "PStr ''foo''"])
       (simp_all add: payload_of_def function_info_def dict_get_def)
  moreover have "map_of ?f |` {''args'', ''kwargs'', ''name''}
          = [''name'' \<mapsto> PStr ''foo'', ''args'' \<mapsto> PList [PInt 1, PInt 2]]"
    by (auto simp: restrict_map_def fun_eq_iff)
  ultimately show ?thesis by simp
qed

text \<open>
  Claim C5, as the code has it. The tag builder is a function of its payload alone. On
  an \<^verbatim>\<open>info\<close> mapping it returns a tag mapping exactly when no branch is taken or the
  value of the branch taken is a mapping that holds every sub-field the branch
  subscripts (db: \<^verbatim>\<open>statement\<close>, \<^verbatim>\<open>params\<close>; request: \<^verbatim>\<open>path\<close>, \<^verbatim>\<open>query\<close>, \<^verbatim>\<open>method\<close>,
  \<^verbatim>\<open>scheme\<close>; function: \<^verbatim>\<open>name\<close>). Otherwise it raises to its caller and returns no
  tags: KeyError when the branch value is a mapping that lacks a sub-field, TypeError
  when the branch value is not a mapping.
\<close>

theorem create_span_tags_returns_iff:
  assumes "getitem p ''info'' = Inr (PDict i)"
  shows "((\<exists>t. create_span_tags dmp p = Inr t) \<longleftrightarrow>
            (case selected_branch i of None \<Rightarrow> True | Some (v, ks) \<Rightarrow> has_keys v ks))
       \<and> (\<forall>e. create_span_tags dmp p = Inl e \<longrightarrow>
            (\<exists>v ks. selected_branch i = Some (v, ks)
               \<and> e = (case v of PDict d \<Rightarrow> KeyError | _ \<Rightarrow> TypeError)))"
  unfolding create_span_tags_dict [OF assms] selected_branch_def
  using db_outcome [of i dmp] request_outcome [of i] function_outcome [of i]
  by (simp split: if_splits)

theorem create_span_tags_returns_iff_witness:
  "getitem (payload_of ''wsgi-start'' good_ts PNone (PDict [(''request'', request_fields)])) ''info''
     = Inr (PDict [(''request'', request_fields)])
   \<and> (\<exists>t. create_span_tags sample_dumps
             (payload_of ''wsgi-start'' good_ts PNone (PDict [(''request'', request_fields)])) = Inr t)"
proof -
  let ?i = "[(''request'', request_fields)]"
  let ?p = "payload_of ''wsgi-start'' good_ts PNone (PDict ?i)"
  have h: "getitem ?p ''info'' = Inr (PDict ?i)" by (simp add: payload_of_def)
  have "case selected_branch ?i of None \<Rightarrow> True | Some (v, ks) \<Rightarrow> has_keys v ks"
    by (simp add: selected_branch_def dict_get_def request_fields_def has_keys_def)
  with create_span_tags_returns_iff [OF h, of sample_dumps]
  have "\<exists>t. create_span_tags sample_dumps ?p = Inr t" by blast
  with h show ?thesis by blast
qed

text \<open>
  The tag builder is not total: a function branch without a \<^verbatim>\<open>name\<close> raises KeyError.
\<close>

theorem create_span_tags_not_total:
  "create_span_tags sample_dumps
     (PDict [(''info'', PDict [(''function'', PDict [(''args'', PList [PInt 1, PInt 2])])])])
   = Inl KeyError"
  by (simp add: create_span_tags_def function_tags_def copy_if_present_def getitem2_def)

text \<open>
  Claim C2, as the code has it. The branch is chosen by the truth value of
  \<^verbatim>\<open>info.get(key)\<close>, not by the presence of the key: a key that is absent, or bound to
  None, an empty mapping, an empty string or list, zero or False, does not select its
  branch. Among the keys with a true value the priority is fixed: db, else request,
  else function. Whenever the db value is true, a returned mapping holds the two
  \<^verbatim>\<open>db.*\<close> tags and nothing else, whatever is under \<^verbatim>\<open>request\<close>; when no value is true, in
  particular when none of the three keys is present, the empty mapping is returned
  without error.
\<close>

theorem create_span_tags_priority:
  assumes "getitem p ''info'' = Inr (PDict i)"
  shows "(truthy (dict_get i ''db'') \<longrightarrow>
            (\<forall>t. create_span_tags dmp p = Inr t \<longrightarrow>
               (\<exists>st ps. getitem (dict_get i ''db'') ''statement'' = Inr st
                  \<and> getitem (dict_get i ''db'') ''params'' = Inr ps
                  \<and> t = [''db.statement'' \<mapsto> st, ''db.params'' \<mapsto> PStr (dmp ps)])))
       \<and> (\<not> truthy (dict_get i ''db'') \<and> truthy (dict_get i ''request'') \<longrightarrow>
            (\<forall>t. create_span_tags dmp p = Inr t \<longrightarrow>
               (\<exists>pa q m sc. getitem (dict_get i ''request'') ''path'' = Inr pa
                  \<and> getitem (dict_get i ''request'') ''query'' = Inr q
                  \<and> getitem (dict_get i ''request'') ''method'' = Inr m
                  \<and> getitem (dict_get i ''request'') ''scheme'' = Inr sc
                  \<and> t = [''http.path'' \<mapsto> pa, ''http.query'' \<mapsto> q,
                         ''http.method'' \<mapsto> m, ''http.scheme'' \<mapsto> sc])))
       \<and> (\<not> truthy (dict_get i ''db'') \<and> \<not> truthy (dict_get i ''request'')
            \<and> truthy (dict_get i ''function'') \<longrightarrow>
            (\<forall>t. create_span_tags dmp p = Inr t \<longrightarrow>
               (\<exists>f nm. dict_get i ''function'' = PDict f \<and> map_of f ''name'' = Some nm
                  \<and> t = map_of f |` {''args'', ''kwargs'', ''name''})))
       \<and> (\<not> truthy (dict_get i ''db'') \<and> \<not> truthy (dict_get i ''request'')
            \<and> \<not> truthy (dict_get i ''function'') \<longrightarrow>
            create_span_tags dmp p = Inr Map.empty)
       \<and> (map_of i ''db'' = None \<and> map_of i ''request'' = None \<and> map_of i ''function'' = None \<longrightarrow>
            create_span_tags dmp p = Inr Map.empty)"
proof (intro conjI impI allI)
  fix t
  assume "truthy (dict_get i ''db'')" and "create_span_tags dmp p = Inr t"
  then show "\<exists>st ps. getitem (dict_get i ''db'') ''statement'' = Inr st
                  \<and> getitem (dict_get i ''db'') ''params'' = Inr ps
                  \<and> t = [''db.statement'' \<mapsto> st, ''db.params'' \<mapsto> PStr (dmp ps)]"
    by (auto simp: create_span_tags_dict [OF assms] db_tags_selected split: sum.splits)
next
  fix t
  assume "\<not> truthy (dict_get i ''db'') \<and> truthy (dict_get i ''request'')"
    and "create_span_tags dmp p = Inr t"
  then show "\<exists>pa q m sc. getitem (dict_get i ''request'') ''path'' = Inr pa
                  \<and> getitem (dict_get i ''request'') ''query'' = Inr q
                  \<and> getitem (dict_get i ''request'') ''method'' = Inr m
                  \<and> getitem (dict_get i ''request'') ''scheme'' = Inr sc
                  \<and> t = [''http.path'' \<mapsto> pa, ''http.query'' \<mapsto> q,
                         ''http.method'' \<mapsto> m, ''http.scheme'' \<mapsto> sc]"
    by (auto simp: create_span_tags_dict [OF assms] request_tags_selected split: sum.splits)
next
  fix t
  assume a: "\<not> truthy (dict_get i ''db'') \<and> \<not> truthy (dict_get i ''request'')
            \<and> truthy (dict_get i ''function'')"
    and r: "create_span_tags dmp p = Inr t"
  then have ft: "function_tags (PDict i) = Inr t"
    by (simp add: create_span_tags_dict [OF assms])
  have "\<exists>f. dict_get i ''function'' = PDict f"
    using a ft function_tags_not_dict [of i] by fastforce
  then obtain f where f: "dict_get i ''function'' = PDict f" by blast
  then have "map_of i ''function'' = Some (PDict f)"
    using a truthy_dict_get by fastforce
  then show "\<exists>f nm. dict_get i ''function'' = PDict f \<and> map_of f ''name'' = Some nm
                  \<and> t = map_of f |` {''args'', ''kwargs'', ''name''}"
    using ft f by (auto simp: function_tags_dict split: option.splits)
next
  assume "\<not> truthy (dict_get i ''db'') \<and> \<not> truthy (dict_get i ''request'')
            \<and> \<not> truthy (dict_get i ''function'')"
  then show "create_span_tags dmp p = Inr Map.empty"
    by (simp add: create_span_tags_dict [OF assms])
next
  assume "map_of i ''db'' = None \<and> map_of i ''request'' = None \<and> map_of i ''function'' = None"
  then show "create_span_tags dmp p = Inr Map.empty"
    by (simp add: create_span_tags_dict [OF assms] dict_get_def)
qed

theorem create_span_tags_priority_witness:
  "create_span_tags sample_dumps
     (payload_of ''db-start'' good_ts PNone
        (PDict [(''request'', request_fields),
                (''db'', PDict [(''statement'', PStr ''SELECT 1''), (''params'', PList [])])]))
   = Inr [''db.statement'' \<mapsto> PStr ''SELECT 1'', ''db.params'' \<mapsto> PStr ''json'']"
proof -
  let ?d = "PDict [(''statement'', PStr ''SELECT 1''), (''params'', PList [])]"
  let ?i = "[(''request'', request_fields), (''db'', ?d)]"
  let ?p = "payload_of ''db-start'' good_ts PNone (PDict ?i)"
  have h: "getitem ?p ''info'' = Inr (PDict ?i)" by (simp add: payload_of_def)
  have d: "dict_get ?i ''db'' = ?d" by (simp add: dict_get_def)
  have r: "\<exists>t. create_span_tags sample_dumps ?p = Inr t"
    by (simp add: create_span_tags_def payload_of_def db_tags_def getitem2_def)
  then obtain t where t: "create_span_tags sample_dumps ?p = Inr t" by blast
  with create_span_tags_priority [OF h, of sample_dumps] d
  have "\<exists>st ps. getitem ?d ''statement'' = Inr st \<and> getitem ?d ''params'' = Inr ps
           \<and> t = [''db.statement'' \<mapsto> st, ''db.params'' \<mapsto> PStr (sample_dumps ps)]"
    by simp
  then have "t = [''db.statement'' \<mapsto> PStr ''SELECT 1'', ''db.params'' \<mapsto> PStr ''json'']"
    by (simp add: sample_dumps_def)
  with t show ?thesis by simp
qed

text \<open>
  An \<^verbatim>\<open>info\<close> that has both a \<^verbatim>\<open>db\<close> and a \<^verbatim>\<open>request\<close> key, the \<^verbatim>\<open>db\<close> value being the
  empty mapping: the request branch is taken and the four \<^verbatim>\<open>http.*\<close> tags are produced,
  no \<^verbatim>\<open>db.*\<close> tag.
\<close>

theorem falsy_db_yields_request_tags:
  "map_of [(''db'', PDict []), (''request'', request_fields)] ''db'' = Some (PDict [])
   \<and> map_of [(''db'', PDict []), (''request'', request_fields)] ''request'' = Some request_fields
   \<and> create_span_tags sample_dumps
       (PDict [(''info'', PDict [(''db'', PDict []), (''request'', request_fields)])])
     = Inr [''http.path'' \<mapsto> PStr ''/x'', ''http.query'' \<mapsto> PStr ''q=1'',
            ''http.method'' \<mapsto> PStr ''GET'', ''http.scheme'' \<mapsto> PStr ''http'']"
  by (simp add: create_span_tags_def request_tags_def getitem2_def request_fields_def)

section \<open>Facts about \<^verbatim>\<open>notify\<close>\<close>

lemma endswith_iff: "endswith s suf \<longleftrightarrow> (\<exists>pre. s = pre @ suf)"
proof
  assume "endswith s suf"
  then have "s = take (length s - length suf) s @ suf"
    by (metis append_take_drop_id endswith_def)
  then show "\<exists>pre. s = pre @ suf" ..
next
  assume "\<exists>pre. s = pre @ suf"
  then show "endswith s suf" by (auto simp: endswith_def)
qed

lemma is_start_iff: "is_start p \<longleftrightarrow> (\<exists>n. getitem p ''name'' = Inr (PStr n) \<and> endswith n ''start'')"
  by (auto simp: is_start_def split: sum.splits pyval.splits)

lemma is_stop_iff: "is_stop p \<longleftrightarrow> (\<exists>n. getitem p ''name'' = Inr (PStr n) \<and> \<not> endswith n ''start'')"
  by (auto simp: is_stop_def split: sum.splits pyval.splits)

lemma notify_is_start:
  "getitem p ''name'' = Inr (PStr n) \<Longrightarrow> endswith n ''start'' \<Longrightarrow> notify L s p = notify_start L s p n"
  by (simp add: notify_def)

lemma notify_is_stop: "is_stop p \<Longrightarrow> notify L s p = notify_stop s"
  by (auto simp: is_stop_iff notify_def)

lemma notify_returns_cases:
  assumes "notify L s p = (Inr r, s')"
  shows "is_start p \<or> is_stop p"
  using assms by (auto simp: notify_def is_start_def is_stop_def split: sum.splits pyval.splits)

lemma resolve_parent_None:
  assumes "resolve_parent L p = Inr parent" and "getitem p ''parent_id'' = Inr pid"
  shows "parent = None \<longleftrightarrow> pid = PNone"
  using assms by (auto simp: resolve_parent_def split: sum.splits if_splits)

lemma notify_start_Inl: "notify_start L s p n = (Inl e, s') \<Longrightarrow> s' = s"
  by (auto simp: notify_start_def Let_def split: sum.splits option.splits)

lemma notify_start_Inr:
  assumes "notify_start L s p n = (Inr r, s')"
  shows "\<exists>ts parent attrs sp.
           getitem p ''timestamp'' = Inr ts \<and> parse_timestamp L ts = Inr ()
         \<and> resolve_parent L p = Inr parent
         \<and> create_span_tags (dumps L) p = Inr attrs
         \<and> sp = \<lparr>span_name = rstrip n ''-start'', span_parent = parent, span_attributes = attrs,
                  span_trace_id = fst (start_span L (length (started s)) (rstrip n ''-start'') parent attrs),
                  span_span_id = snd (start_span L (length (started s)) (rstrip n ''-start'') parent attrs)\<rparr>
         \<and> s' = s\<lparr>spans := spans s @ [sp], started := started s @ [sp]\<rparr>
         \<and> r = (case parent of None \<Rightarrow> PList [span_trace_id sp, span_span_id sp]
                 | Some c \<Rightarrow> PList [span_span_id sp])"
  using assms by (auto simp: notify_start_def Let_def split: sum.splits option.splits)

lemma notify_start_returned_any_state:
  "returned (notify_start L s p n) = returned (notify_start L s0 p n)"
  by (auto simp: notify_start_def returned_def Let_def split: sum.splits option.splits)

lemma notify_start_step:
  assumes "notify_start L s p n = (Inr r, s')"
  shows "length (spans s') = Suc (length (spans s)) \<and> length (started s') = Suc (length (started s))
         \<and> ended s' = ended s"
  using notify_start_Inr [OF assms] by auto

lemma notify_stop_step:
  assumes "notify_stop s = (Inr r, s')"
  shows "Suc (length (spans s')) = length (spans s) \<and> started s' = started s
         \<and> length (ended s') = Suc (length (ended s))"
  using assms by (auto simp: notify_stop_def split: if_splits)

lemma is_start_not_stop: "is_start p \<Longrightarrow> \<not> is_stop p"
  by (auto simp: is_start_iff is_stop_iff)

lemma notify_step:
  assumes "notify L s p = (Inr r, s')"
  shows "if is_start p
         then length (spans s') = Suc (length (spans s)) \<and> length (started s') = Suc (length (started s))
              \<and> ended s' = ended s
         else Suc (length (spans s')) = length (spans s) \<and> started s' = started s
              \<and> length (ended s') = Suc (length (ended s))"
proof (cases "is_start p")
  case True
  then obtain n where n: "getitem p ''name'' = Inr (PStr n)" "endswith n ''start''"
    by (auto simp: is_start_iff)
  with assms have "notify_start L s p n = (Inr r, s')" by (simp add: notify_is_start)
  with True show ?thesis by (simp add: notify_start_step)
next
  case False
  with notify_returns_cases [OF assms] have "is_stop p" by simp
  with assms have "notify_stop s = (Inr r, s')" by (simp add: notify_is_stop)
  with False show ?thesis by (simp add: notify_stop_step)
qed

lemma accepted_start_returns:
  assumes "is_start p" and "returned (notify L init_driver p)"
  shows "\<exists>r s'. notify L s p = (Inr r, s')"
proof -
  from assms(1) obtain n where n: "getitem p ''name'' = Inr (PStr n)" "endswith n ''start''"
    by (auto simp: is_start_iff)
  then have "\<And>s0. notify L s0 p = notify_start L s0 p n" by (rule notify_is_start)
  with assms(2) have "returned (notify L s p)"
    using notify_start_returned_any_state [of L s p n init_driver] by simp
  then show ?thesis
    by (cases "notify L s p") (auto simp: returned_def split: sum.splits)
qed

text \<open>
  Whether \<^verbatim>\<open>notify\<close> accepts a start notification does not depend on the state: it
  returns exactly when the timestamp parses, the parent context can be built and the
  tag builder returns.
\<close>

lemma start_accepted_iff:
  assumes "is_start p"
  shows "returned (notify L s p) \<longleftrightarrow>
           (\<exists>ts parent attrs. getitem p ''timestamp'' = Inr ts \<and> parse_timestamp L ts = Inr ()
              \<and> resolve_parent L p = Inr parent \<and> create_span_tags (dumps L) p = Inr attrs)"
proof -
  from assms obtain n where n: "getitem p ''name'' = Inr (PStr n)" "endswith n ''start''"
    by (auto simp: is_start_iff)
  then have "notify L s p = notify_start L s p n" by (rule notify_is_start)
  then show ?thesis
    by (auto simp: notify_start_def returned_def Let_def split: sum.splits option.splits)
qed

text \<open>
  The names the instrumentation sends, \<^verbatim>\<open>\<dots>-start\<close> and \<^verbatim>\<open>\<dots>-stop\<close>, are classified as a
  start and as a stop.
\<close>

lemma hyphen_start_is_start:
  assumes "getitem p ''name'' = Inr (PStr (b @ ''-start''))"
  shows "is_start p"
proof -
  have "endswith (b @ ''-start'') ''start''"
    by (simp add: endswith_def)
  with assms show ?thesis
    unfolding is_start_iff by blast
qed

lemma hyphen_stop_is_stop:
  assumes "getitem p ''name'' = Inr (PStr (b @ ''-stop''))"
  shows "is_stop p"
proof -
  have "\<not> endswith (b @ ''-stop'') ''start''"
  proof
    assume "endswith (b @ ''-stop'') ''start''"
    then obtain pre where "b @ ''-stop'' = pre @ ''start''" unfolding endswith_iff by blast
    then have "last (b @ ''-stop'') = last (pre @ ''start'')" by simp
    then show False by simp
  qed
  with assms show ?thesis by (auto simp: is_stop_iff)
qed

lemma notify_all_balanced:
  assumes "well_nested (length (spans s)) ps"
    and "\<forall>p \<in> set ps. is_start p \<longrightarrow> returned (notify L init_driver p)"
  shows "\<exists>s'. notify_all L s ps = Inr s' \<and> spans s' = []
           \<and> length (started s') + length (ended s) + length (spans s)
               = length (ended s') + length (started s)"
  using assms
proof (induction ps arbitrary: s)
  case Nil
  then show ?case by simp
next
  case (Cons p ps)
  show ?case
  proof (cases "is_start p")
    case True
    with Cons.prems(2) have "returned (notify L init_driver p)" by simp
    with True obtain r s1 where n: "notify L s p = (Inr r, s1)"
      using accepted_start_returns by blast
    from notify_step [OF n] True
    have st: "length (spans s1) = Suc (length (spans s))"
      "length (started s1) = Suc (length (started s))" "ended s1 = ended s"
      by simp_all
    from Cons.prems(1) True st have "well_nested (length (spans s1)) ps" by simp
    from Cons.IH [OF this] Cons.prems(2) obtain s' where
      "notify_all L s1 ps = Inr s'" "spans s' = []"
      "length (started s') + length (ended s1) + length (spans s1)
         = length (ended s') + length (started s1)"
      by auto
    with n st show ?thesis by simp
  next
    case False
    with Cons.prems(1) have stop: "is_stop p" and d: "0 < length (spans s)"
      and wn: "well_nested (length (spans s) - 1) ps"
      by simp_all
    from d have "notify_stop s = (Inr PNone,
        s\<lparr>spans := butlast (spans s), ended := ended s @ [last (spans s)]\<rparr>)"
      by (simp add: notify_stop_def)
    with stop obtain s1 where n: "notify L s p = (Inr PNone, s1)"
      by (simp add: notify_is_stop)
    from notify_step [OF n] False
    have st: "Suc (length (spans s1)) = length (spans s)"
      "started s1 = started s" "length (ended s1) = Suc (length (ended s))"
      by simp_all
    from wn st have "well_nested (length (spans s1)) ps"
      by (metis diff_Suc_1)
    from Cons.IH [OF this] Cons.prems(2) obtain s' where
      "notify_all L s1 ps = Inr s'" "spans s' = []"
      "length (started s') + length (ended s1) + length (spans s1)
         = length (ended s') + length (started s1)"
      by auto
    with n st show ?thesis by simp
  qed
qed

lemma returned_split: "returned x \<Longrightarrow> \<exists>r. x = (Inr r, snd x)"
  by (cases x) (auto simp: returned_def split: sum.splits)

lemmas sample_eval =
  notify_def notify_start_def notify_stop_def payload_of_def good_ts_def sample_lib_def
  parse_timestamp_def resolve_parent_def create_span_tags_def db_info_def db_tags_def
  request_tags_def request_fields_def getitem2_def endswith_def rstrip_def Let_def
  init_driver_def sample_dumps_def is_start_def is_stop_def returned_def

section \<open>Properties of \<^verbatim>\<open>notify\<close>\<close>

text \<open>
  Claim C1. A start notification on which \<^verbatim>\<open>notify\<close> returns opens exactly one span,
  whose identifiers are those the tracer gave it, and pushes its activation. The value
  returned is the two-element list \<^verbatim>\<open>[trace_id, span_id]\<close> of that span when
  \<^verbatim>\<open>parent_id\<close> is None and the one-element list \<^verbatim>\<open>[span_id]\<close> of that span when it is
  not.
\<close>

theorem notify_start_returns_ids:
  assumes "is_start p" and "getitem p ''parent_id'' = Inr pid" and "notify L s p = (Inr r, s')"
  shows "\<exists>sp. spans s' = spans s @ [sp] \<and> started s' = started s @ [sp] \<and> ended s' = ended s
           \<and> (span_trace_id sp, span_span_id sp)
               = start_span L (length (started s)) (span_name sp) (span_parent sp) (span_attributes sp)
           \<and> r = (if pid = PNone then PList [span_trace_id sp, span_span_id sp]
                   else PList [span_span_id sp])"
proof -
  from assms(1) obtain n where n: "getitem p ''name'' = Inr (PStr n)" "endswith n ''start''"
    by (auto simp: is_start_iff)
  with assms(3) have "notify_start L s p n = (Inr r, s')" by (simp add: notify_is_start)
  from notify_start_Inr [OF this] obtain parent attrs sp where
    par: "resolve_parent L p = Inr parent"
    and sp: "sp = \<lparr>span_name = rstrip n ''-start'', span_parent = parent, span_attributes = attrs,
                  span_trace_id = fst (start_span L (length (started s)) (rstrip n ''-start'') parent attrs),
                  span_span_id = snd (start_span L (length (started s)) (rstrip n ''-start'') parent attrs)\<rparr>"
    and s': "s' = s\<lparr>spans := spans s @ [sp], started := started s @ [sp]\<rparr>"
    and r: "r = (case parent of None \<Rightarrow> PList [span_trace_id sp, span_span_id sp]
                 | Some c \<Rightarrow> PList [span_span_id sp])"
    by blast
  have "parent = None \<longleftrightarrow> pid = PNone" using par assms(2) by (rule resolve_parent_None)
  then have "r = (if pid = PNone then PList [span_trace_id sp, span_span_id sp]
                   else PList [span_span_id sp])"
    using r by (cases parent) auto
  moreover have "(span_trace_id sp, span_span_id sp)
               = start_span L (length (started s)) (span_name sp) (span_parent sp) (span_attributes sp)"
    by (simp add: sp)
  ultimately show ?thesis using s' by auto
qed

theorem notify_start_returns_ids_witness:
  "(\<exists>sp. spans (snd (notify sample_lib init_driver (payload_of ''wsgi-start'' good_ts PNone db_info))) = [sp]
        \<and> fst (notify sample_lib init_driver (payload_of ''wsgi-start'' good_ts PNone db_info))
            = Inr (PList [span_trace_id sp, span_span_id sp]))
   \<and> fst (notify sample_lib init_driver (payload_of ''wsgi-start'' good_ts PNone db_info))
       = Inr (PList [PInt 100, PInt 1])
   \<and> (\<exists>sp. spans (snd (notify sample_lib init_driver (payload_of ''db-start'' good_ts (PInt 5) db_info))) = [sp]
        \<and> fst (notify sample_lib init_driver (payload_of ''db-start'' good_ts (PInt 5) db_info))
            = Inr (PList [span_span_id sp]))
   \<and> fst (notify sample_lib init_driver (payload_of ''db-start'' good_ts (PInt 5) db_info))
       = Inr (PList [PInt 1])"
proof -
  let ?s = "init_driver :: (pyval \<times> pyval) driver"
  let ?root = "payload_of ''wsgi-start'' good_ts PNone db_info"
  let ?child = "payload_of ''db-start'' good_ts (PInt 5) db_info"
  have "returned (notify sample_lib ?s ?root)" by (simp add: sample_eval)
  then obtain r1 where r1: "notify sample_lib ?s ?root = (Inr r1, snd (notify sample_lib ?s ?root))"
    using returned_split by blast
  have "is_start ?root" and "getitem ?root ''parent_id'' = Inr PNone"
    by (simp_all add: sample_eval)
  from notify_start_returns_ids [OF this r1]
  have a: "\<exists>sp. spans (snd (notify sample_lib ?s ?root)) = [sp]
        \<and> fst (notify sample_lib ?s ?root) = Inr (PList [span_trace_id sp, span_span_id sp])"
    using r1 by (auto simp: init_driver_def) (metis fst_conv)
  have "returned (notify sample_lib ?s ?child)" by (simp add: sample_eval)
  then obtain r2 where r2: "notify sample_lib ?s ?child = (Inr r2, snd (notify sample_lib ?s ?child))"
    using returned_split by blast
  have "is_start ?child" and "getitem ?child ''parent_id'' = Inr (PInt 5)"
    by (simp_all add: sample_eval)
  from notify_start_returns_ids [OF this r2]
  have b: "\<exists>sp. spans (snd (notify sample_lib ?s ?child)) = [sp]
        \<and> fst (notify sample_lib ?s ?child) = Inr (PList [span_span_id sp])"
    using r2 by (auto simp: init_driver_def) (metis fst_conv)
  have c: "fst (notify sample_lib ?s ?root) = Inr (PList [PInt 100, PInt 1])"
    by (simp add: sample_eval)
  have d: "fst (notify sample_lib ?s ?child) = Inr (PList [PInt 1])"
    by (simp add: sample_eval)
  from a b c d show ?thesis by blast
qed

text \<open>
  Claim C3. A stop notification that arrives when the deque of activations is empty
  raises to the caller: \<^verbatim>\<open>deque.pop\<close> raises IndexError, the exception by which the
  driver reports the unbalanced stop, since the driver defines no exception class of
  its own. The state is the one the call began in, the deque still empty; the call
  ends with that exception and with nothing else.
\<close>

theorem stop_on_empty_stack:
  assumes "is_stop p" and "spans s = []"
  shows "notify L s p = (Inl IndexError, s)"
  using assms by (simp add: notify_is_stop notify_stop_def)

theorem stop_on_empty_stack_witness:
  "is_stop (payload_of ''db-stop'' good_ts PNone db_info)
   \<and> spans (init_driver :: (pyval \<times> pyval) driver) = []
   \<and> notify sample_lib init_driver (payload_of ''db-stop'' good_ts PNone db_info)
       = (Inl IndexError, init_driver)"
proof -
  have a: "is_stop (payload_of ''db-stop'' good_ts PNone db_info)"
    by (simp add: is_stop_def payload_of_def endswith_def)
  have b: "spans (init_driver :: (pyval \<times> pyval) driver) = []"
    by (simp add: init_driver_def)
  from a b stop_on_empty_stack [OF a b, of sample_lib] show ?thesis by simp
qed

text \<open>
  Claim C6. When the timestamp of a start notification is a string that
  \<^verbatim>\<open>strptime\<close> does not accept, \<^verbatim>\<open>notify\<close> raises ValueError to its caller and leaves the
  state as it found it: no span is opened and nothing is pushed on the deque.
\<close>

theorem malformed_timestamp_aborts:
  assumes "is_start p" and "getitem p ''timestamp'' = Inr (PStr t)" and "\<not> strptime L t"
  shows "notify L s p = (Inl ValueError, s)"
proof -
  from assms(1) obtain n where n: "getitem p ''name'' = Inr (PStr n)" "endswith n ''start''"
    by (auto simp: is_start_iff)
  then have "notify L s p = notify_start L s p n" by (rule notify_is_start)
  also have "\<dots> = (Inl ValueError, s)"
    using assms(2,3) by (simp add: notify_start_def parse_timestamp_def)
  finally show ?thesis .
qed

theorem malformed_timestamp_aborts_witness:
  "notify sample_lib \<lparr>spans = [sample_span], started = [sample_span], ended = []\<rparr>
     (payload_of ''db-start'' ''yesterday'' (PInt 1) db_info)
   = (Inl ValueError, \<lparr>spans = [sample_span], started = [sample_span], ended = []\<rparr>)"
proof -
  let ?p = "payload_of ''db-start'' ''yesterday'' (PInt 1) db_info"
  have a: "is_start ?p" by (simp add: is_start_def payload_of_def endswith_def)
  have b: "getitem ?p ''timestamp'' = Inr (PStr ''yesterday'')" by (simp add: payload_of_def)
  have c: "\<not> strptime sample_lib ''yesterday''" by (simp add: sample_lib_def)
  show ?thesis by (rule malformed_timestamp_aborts [OF a b c])
qed

text \<open>
  Claim C4 concerns the name of the span a start notification opens. The source computes
  it as \<^verbatim>\<open>payload["name"].rstrip("-start")\<close>, which strips every trailing character
  that occurs in \<^verbatim>\<open>-start\<close>, not the suffix \<^verbatim>\<open>-start\<close>: the name is \<open>rstrip n ''-start''\<close>.
  For the name \<^verbatim>\<open>driver-start\<close> the span is called \<^verbatim>\<open>drive\<close>, not \<^verbatim>\<open>driver\<close>, as the
  instance after the theorem shows.
\<close>

theorem notify_start_span_name:
  assumes "getitem p ''name'' = Inr (PStr n)" and "endswith n ''start''"
    and "notify L s p = (Inr r, s')"
  shows "spans s' \<noteq> [] \<and> span_name (last (spans s')) = rstrip n ''-start''"
proof -
  from assms have "notify_start L s p n = (Inr r, s')" by (simp add: notify_is_start)
  from notify_start_Inr [OF this] show ?thesis by auto
qed

theorem notify_start_span_name_witness:
  "span_name (last (spans (snd (notify sample_lib init_driver
      (payload_of ''driver-start'' good_ts PNone db_info))))) = ''drive''"
proof -
  let ?s = "init_driver :: (pyval \<times> pyval) driver"
  let ?p = "payload_of ''driver-start'' good_ts PNone db_info"
  have "returned (notify sample_lib ?s ?p)" by (simp add: sample_eval)
  then obtain r where r: "notify sample_lib ?s ?p = (Inr r, snd (notify sample_lib ?s ?p))"
    using returned_split by blast
  have a: "getitem ?p ''name'' = Inr (PStr ''driver-start'')" by (simp add: payload_of_def)
  have b: "endswith ''driver-start'' ''start''" by (simp add: endswith_def)
  have "rstrip ''driver-start'' ''-start'' = ''drive''" by (simp add: rstrip_def)
  with notify_start_span_name [OF a b r] show ?thesis by simp
qed

text \<open>
  Claim C10. \<^verbatim>\<open>notify\<close> takes the start branch exactly when the name ends with the
  five characters \<^verbatim>\<open>start\<close>; no hyphen is needed, so \<^verbatim>\<open>restart\<close> is a start. Every
  other name is a stop, whether or not it ends with \<^verbatim>\<open>-stop\<close>: the rightmost
  activation is popped and closed (IndexError on an empty deque), and the outcome is
  written below from the state alone, so no other field of the payload is read.
\<close>

theorem notify_classifies_by_suffix:
  assumes "getitem p ''name'' = Inr (PStr n)"
  shows "((\<exists>pre. n = pre @ ''start'') \<longrightarrow> notify L s p = notify_start L s p n)
       \<and> (\<not> (\<exists>pre. n = pre @ ''start'') \<longrightarrow>
            notify L s p =
              (if spans s = [] then (Inl IndexError, s)
               else (Inr PNone,
                     s\<lparr>spans := butlast (spans s), ended := ended s @ [last (spans s)]\<rparr>)))"
  using assms unfolding endswith_iff [symmetric] by (simp add: notify_def notify_stop_def)

theorem notify_classifies_by_suffix_witness:
  "notify sample_lib init_driver (payload_of ''restart'' good_ts PNone db_info)
     = notify_start sample_lib init_driver (payload_of ''restart'' good_ts PNone db_info) ''restart''
   \<and> fst (notify sample_lib init_driver (payload_of ''restart'' good_ts PNone db_info))
       = Inr (PList [PInt 100, PInt 1])
   \<and> notify sample_lib \<lparr>spans = [sample_span], started = [sample_span], ended = []\<rparr>
       (PDict [(''name'', PStr ''heartbeat'')])
     = (Inr PNone, \<lparr>spans = [], started = [sample_span], ended = [sample_span]\<rparr>)"
proof -
  let ?s = "init_driver :: (pyval \<times> pyval) driver"
  let ?p = "payload_of ''restart'' good_ts PNone db_info"
  let ?q = "PDict [(''name'', PStr ''heartbeat'')]"
  let ?s1 = "\<lparr>spans = [sample_span], started = [sample_span], ended = []\<rparr>"
  have a: "getitem ?p ''name'' = Inr (PStr ''restart'')" by (simp add: payload_of_def)
  have pre: "\<exists>pre. ''restart'' = pre @ ''start''"
    unfolding endswith_iff [symmetric] by (simp add: endswith_def)
  from notify_classifies_by_suffix [OF a, of sample_lib ?s]
  have "(\<exists>pre. ''restart'' = pre @ ''start'') \<longrightarrow>
          notify sample_lib ?s ?p = notify_start sample_lib ?s ?p ''restart''"
    by (rule conjunct1)
  from this pre have 1: "notify sample_lib ?s ?p = notify_start sample_lib ?s ?p ''restart''"
    by (rule mp)
  have 2: "fst (notify sample_lib ?s ?p) = Inr (PList [PInt 100, PInt 1])"
    by (simp add: sample_eval)
  have b: "getitem ?q ''name'' = Inr (PStr ''heartbeat'')" by simp
  have npre: "\<not> (\<exists>pre. ''heartbeat'' = pre @ ''start'')"
    unfolding endswith_iff [symmetric] by (simp add: endswith_def)
  from notify_classifies_by_suffix [OF b, of sample_lib ?s1]
  have "\<not> (\<exists>pre. ''heartbeat'' = pre @ ''start'') \<longrightarrow>
            notify sample_lib ?s1 ?q =
              (if spans ?s1 = [] then (Inl IndexError, ?s1)
               else (Inr PNone,
                     ?s1\<lparr>spans := butlast (spans ?s1), ended := ended ?s1 @ [last (spans ?s1)]\<rparr>))"
    by (rule conjunct2)
  from this npre have "notify sample_lib ?s1 ?q =
              (if spans ?s1 = [] then (Inl IndexError, ?s1)
               else (Inr PNone,
                     ?s1\<lparr>spans := butlast (spans ?s1), ended := ended ?s1 @ [last (spans ?s1)]\<rparr>))"
    by (rule mp)
  also have "\<dots> = (Inr PNone, \<lparr>spans = [], started = [sample_span], ended = [sample_span]\<rparr>)"
    by simp
  finally have 3: "notify sample_lib ?s1 ?q
      = (Inr PNone, \<lparr>spans = [], started = [sample_span], ended = [sample_span]\<rparr>)" .
  show ?thesis using 1 2 3 by (intro conjI)
qed

text \<open>
  Claim C7. Every call of \<^verbatim>\<open>notify\<close> that returns on a start makes the deque one longer
  and opens one span; every call that returns on a stop makes the deque one shorter
  and closes one span. For every well-nested sequence of notifications delivered to a
  driver whose deque is empty, each start of which \<^verbatim>\<open>notify\<close> accepts, every call
  returns, the deque is empty again after the last stop, and as many spans have been
  closed as have been opened.
\<close>

theorem activation_stack_balanced:
  "(\<forall>s p r s'. notify L s p = (Inr r, s') \<longrightarrow>
      (if is_start p
       then length (spans s') = Suc (length (spans s))
            \<and> length (started s') = Suc (length (started s)) \<and> ended s' = ended s
       else Suc (length (spans s')) = length (spans s)
            \<and> started s' = started s \<and> length (ended s') = Suc (length (ended s))))
   \<and> (\<forall>s ps. spans s = [] \<and> well_nested 0 ps
          \<and> (\<forall>p \<in> set ps. is_start p \<longrightarrow> returned (notify L init_driver p)) \<longrightarrow>
        (\<exists>s'. notify_all L s ps = Inr s' \<and> spans s' = []
           \<and> length (started s') + length (ended s) = length (ended s') + length (started s)))"
proof (intro conjI allI impI)
  fix s p r s'
  assume "notify L s p = (Inr r, s')"
  then show "if is_start p
       then length (spans s') = Suc (length (spans s))
            \<and> length (started s') = Suc (length (started s)) \<and> ended s' = ended s
       else Suc (length (spans s')) = length (spans s)
            \<and> started s' = started s \<and> length (ended s') = Suc (length (ended s))"
    by (rule notify_step)
next
  fix s :: "'a driver" and ps
  assume a: "spans s = [] \<and> well_nested 0 ps
          \<and> (\<forall>p \<in> set ps. is_start p \<longrightarrow> returned (notify L init_driver p))"
  then have "well_nested (length (spans s)) ps" by simp
  from notify_all_balanced [OF this] a
  show "\<exists>s'. notify_all L s ps = Inr s' \<and> spans s' = []
           \<and> length (started s') + length (ended s) = length (ended s') + length (started s)"
    by fastforce
qed

theorem activation_stack_balanced_witness:
  "well_nested 0 sample_trace
   \<and> (\<exists>s'. notify_all sample_lib init_driver sample_trace = Inr s' \<and> spans s' = []
         \<and> length (started s') = length (ended s'))
   \<and> (case notify_all sample_lib init_driver sample_trace of
         Inr s' \<Rightarrow> map span_name (started s') | Inl e \<Rightarrow> []) = [''wsgi'', ''db'']"
proof -
  let ?s = "init_driver :: (pyval \<times> pyval) driver"
  have a: "well_nested 0 sample_trace" by (simp add: sample_trace_def sample_eval)
  have b: "spans ?s = []" by (simp add: init_driver_def)
  have c: "\<forall>p \<in> set sample_trace. is_start p \<longrightarrow> returned (notify sample_lib ?s p)"
    by (simp add: sample_trace_def sample_eval)
  from activation_stack_balanced [of sample_lib] a b c
  have "\<exists>s'. notify_all sample_lib ?s sample_trace = Inr s' \<and> spans s' = []
           \<and> length (started s') + length (ended ?s) = length (ended s') + length (started ?s)"
    by blast
  then have d: "\<exists>s'. notify_all sample_lib ?s sample_trace = Inr s' \<and> spans s' = []
         \<and> length (started s') = length (ended s')"
    by (simp add: init_driver_def)
  have e: "(case notify_all sample_lib ?s sample_trace of
         Inr s' \<Rightarrow> map span_name (started s') | Inl e \<Rightarrow> []) = [''wsgi'', ''db'']"
    by (simp add: sample_trace_def sample_eval)
  from a d e show ?thesis by blast
qed

end
